theory Spec2Isabelle
  imports Complex_Main "HOL-Library.Multiset" "HOL-Library.List_Lexorder" "HOL-Library.Char_ord"
begin

text \<open>
  The precipitation collector polls two weather providers, normalizes the responses to
  flat records and keeps the accumulated tables in a spreadsheet file. This theory
  embeds its merge-and-store procedure: \<open>save_precipitation_data\<close> and
  \<open>extract_precipitation_data\<close> of \<open>PrecipitationDataExtractor\<close> (the same code in
  \<open>uniao.py\<close> and \<open>api_sheet_cron_2.py\<close>), \<open>process_data\<close> and \<open>save_to_excel\<close> of
  \<open>WeatherDataExtractor\<close>, and the normalizer \<open>format_current_precipitation\<close>. Frames,
  the workbook and the provider's responses are data; every exception of the source is
  a value \<open>Inl\<close>; what belongs to pandas (sorting, parsing of timestamps) is a parameter.
\<close>

section \<open>Tables\<close>

text \<open>
  A cell of a table holds a scalar: a string, a number, or the missing value NaN.
  Python's \<open>bool\<close> is a subclass of \<open>int\<close> (\<open>True == 1\<close>), so a boolean cell is the
  number 1 or 0. Numbers are rationals: the merge only copies and compares them.
\<close>

datatype cell = NaN | Num rat | Str string

text \<open>
  A row maps column names to cells, in column order. A frame is its column index and
  its rows. \<open>pd.DataFrame()\<close> has no column and no row.
\<close>

type_synonym row = "(string \<times> cell) list"

record dataframe =
  columns :: "string list"
  rows :: "row list"

definition DataFrame_empty :: dataframe where
  "DataFrame_empty = \<lparr>columns = [], rows = []\<rparr>"

text \<open>\<open>df.empty\<close>: some axis has length 0.\<close>

definition df_empty :: "dataframe \<Rightarrow> bool" where
  "df_empty df \<longleftrightarrow> columns df = [] \<or> rows df = []"

text \<open>\<open>c in df.columns\<close>.\<close>

definition has_column :: "string \<Rightarrow> dataframe \<Rightarrow> bool" where
  "has_column c df \<longleftrightarrow> c \<in> set (columns df)"

text \<open>The cell of a row under a column; a column the row does not have reads as NaN.\<close>

definition cell_at :: "row \<Rightarrow> string \<Rightarrow> cell" where
  "cell_at r c = (case map_of r c of Some v \<Rightarrow> v | None \<Rightarrow> NaN)"

text \<open>Every row of a well-formed frame carries exactly the frame's columns, in order.\<close>

definition wf_frame :: "dataframe \<Rightarrow> bool" where
  "wf_frame df \<longleftrightarrow> distinct (columns df) \<and> (\<forall>r \<in> set (rows df). map fst r = columns df)"

datatype error = KeyError | TypeError | ValueError | AttributeError | OSError | IndexError

section \<open>The pandas operations the merge calls\<close>

text \<open>
  \<open>pd.concat(frames, ignore_index=True)\<close>: the columns are the union of the frames'
  columns in order of first appearance, every row is re-indexed to them, and a column a
  row did not have is filled with NaN.
\<close>

definition reindex :: "string list \<Rightarrow> row \<Rightarrow> row" where
  "reindex cols r = map (\<lambda>c. (c, cell_at r c)) cols"

fun union_columns :: "string list \<Rightarrow> string list \<Rightarrow> string list" where
  "union_columns acc [] = acc"
| "union_columns acc (c # cs) =
     (if c \<in> set acc then union_columns acc cs else union_columns (acc @ [c]) cs)"

definition pd_concat :: "dataframe list \<Rightarrow> dataframe" where
  "pd_concat dfs =
     (let cols = foldl union_columns [] (map columns dfs)
      in \<lparr>columns = cols, rows = map (reindex cols) (concat (map rows dfs))\<rparr>)"

text \<open>
  \<open>df.drop_duplicates(subset=..., keep='last')\<close>: a row stays when no later row has the
  same cells under the subset columns. NaN equals NaN here, as in pandas.
\<close>

definition subset_key :: "string list \<Rightarrow> row \<Rightarrow> cell list" where
  "subset_key ks r = map (cell_at r) ks"

fun keep_last :: "('a \<Rightarrow> 'k) \<Rightarrow> 'a list \<Rightarrow> 'a list" where
  "keep_last k [] = []"
| "keep_last k (x # xs) =
     (if k x \<in> set (map k xs) then keep_last k xs else x # keep_last k xs)"

definition drop_duplicates :: "string list \<Rightarrow> dataframe \<Rightarrow> dataframe" where
  "drop_duplicates ks df = df\<lparr>rows := keep_last (subset_key ks) (rows df)\<rparr>"

text \<open>
  \<open>pd.to_datetime\<close> gives a timestamp, or NaT for a missing value. \<open>sort_values\<close> puts
  NaT (and NaN) last.
\<close>

datatype 'ts stamp = At 'ts | NaT

fun stamp_le :: "('ts::linorder) stamp \<Rightarrow> 'ts stamp \<Rightarrow> bool" where
  "stamp_le _ NaT = True"
| "stamp_le NaT (At _) = False"
| "stamp_le (At a) (At b) = (a \<le> b)"

text \<open>
  The order \<open>sort_values\<close> uses on a column of cells: strings by code point, numbers by
  value, NaN last. Python refuses to compare a string with a number, so a column is
  sortable only when it does not hold both.
\<close>

fun cell_le :: "cell \<Rightarrow> cell \<Rightarrow> bool" where
  "cell_le _ NaN = True"
| "cell_le NaN _ = False"
| "cell_le (Num a) (Num b) = (a \<le> b)"
| "cell_le (Num _) (Str _) = True"
| "cell_le (Str _) (Num _) = False"
| "cell_le (Str s) (Str t) = (s \<le> t)"

fun is_Str :: "cell \<Rightarrow> bool" where
  "is_Str (Str _) = True"
| "is_Str _ = False"

fun is_Num :: "cell \<Rightarrow> bool" where
  "is_Num (Num _) = True"
| "is_Num _ = False"

definition sortable :: "cell list \<Rightarrow> bool" where
  "sortable cs \<longleftrightarrow> \<not> ((\<exists>c \<in> set cs. is_Str c) \<and> (\<exists>c \<in> set cs. is_Num c))"

text \<open>
  The library's sorting routine and its timestamp parser are not code of the repository;
  the model takes them as parameters. \<open>sort_values\<close> sorts the positions of the rows by
  the key column and takes the rows in that order: \<open>srt le ps\<close> sorts the positions
  \<open>ps\<close> by the order \<open>le\<close>. pandas sorts with quicksort, which fixes no order among
  equal keys, so all that is known of \<open>srt\<close> is \<open>is_sorter\<close>.
\<close>

type_synonym sorter = "(nat \<Rightarrow> nat \<Rightarrow> bool) \<Rightarrow> nat list \<Rightarrow> nat list"

definition is_sorter :: "sorter \<Rightarrow> bool" where
  "is_sorter srt \<longleftrightarrow>
     (\<forall>le xs. (\<forall>a b. le a b \<or> le b a) \<and> (\<forall>a b c. le a b \<longrightarrow> le b c \<longrightarrow> le a c)
        \<longrightarrow> sorted_wrt le (srt le xs) \<and> mset (srt le xs) = mset xs)"

definition sort_values :: "sorter \<Rightarrow> ('k \<Rightarrow> 'k \<Rightarrow> bool) \<Rightarrow> 'k list \<Rightarrow> 'a list \<Rightarrow> 'a list" where
  "sort_values srt le keys xs =
     map (\<lambda>i. xs ! i) (srt (\<lambda>i j. le (keys ! i) (keys ! j)) [0..<length xs])"

text \<open>
  \<open>pd.to_datetime(df['data'] + ' ' + df['hora'])\<close> works on the whole column: the cells
  of each row are joined to one string, one format is inferred for the column and every
  element is parsed with it. \<open>to_dt col\<close> is what the expression does on the column
  \<open>col\<close> of (\<open>data\<close>, \<open>hora\<close>) cells: \<open>Inl e\<close> when it raises (TypeError when cells
  cannot be joined, ValueError when an element does not parse), and \<open>Inr f\<close> when it
  returns, \<open>f\<close> giving the timestamp of each element of that column. Nothing is assumed
  about when it raises, nor about the timestamps.
\<close>

type_synonym 'ts to_datetime = "(cell \<times> cell) list \<Rightarrow> error + (cell \<times> cell \<Rightarrow> 'ts stamp)"

definition date_time :: "row \<Rightarrow> cell \<times> cell" where
  "date_time r = (cell_at r ''data'', cell_at r ''hora'')"

text \<open>The column \<open>datetime_temp\<close> of a frame: the timestamp of each of its rows.\<close>

definition datetime_temp :: "'ts to_datetime \<Rightarrow> dataframe \<Rightarrow> error + (row \<Rightarrow> 'ts stamp)" where
  "datetime_temp to_dt df =
     (case to_dt (map date_time (rows df)) of
        Inl e \<Rightarrow> Inl e
      | Inr f \<Rightarrow> Inr (\<lambda>r. f (date_time r)))"

text \<open>The three lines that add \<open>datetime_temp\<close>, sort by it and drop it again.\<close>

definition sort_by_datetime ::
  "('ts::linorder) to_datetime \<Rightarrow> sorter \<Rightarrow> dataframe \<Rightarrow> error + dataframe" where
  "sort_by_datetime to_dt srt df =
     (case datetime_temp to_dt df of
        Inl e \<Rightarrow> Inl e
      | Inr stamp \<Rightarrow> Inr (df\<lparr>rows := sort_values srt stamp_le (map stamp (rows df)) (rows df)\<rparr>))"

text \<open>\<open>df.sort_values('data').reset_index(drop=True)\<close>.\<close>

definition sort_by_data :: "sorter \<Rightarrow> dataframe \<Rightarrow> error + dataframe" where
  "sort_by_data srt df =
     (if sortable (map (\<lambda>r. cell_at r ''data'') (rows df))
      then Inr (df\<lparr>rows := sort_values srt cell_le (map (\<lambda>r. cell_at r ''data'') (rows df)) (rows df)\<rparr>)
      else Inl TypeError)"

section \<open>The table merger of \<open>save_precipitation_data\<close>\<close>

type_synonym dataset = "(string \<times> dataframe) list"

text \<open>
  The body of the loop \<open>for sheet_name, new_df in dataframes_dict.items()\<close>: what is
  stored in \<open>combined_data[sheet_name]\<close>, or the exception that leaves the loop.
\<close>

definition combine_sheet ::
  "('ts::linorder) to_datetime \<Rightarrow> sorter \<Rightarrow> dataset \<Rightarrow> string \<Rightarrow> dataframe \<Rightarrow> error + dataframe" where
  "combine_sheet to_dt srt existing_data sheet_name new_df =
     (case map_of existing_data sheet_name of
        None \<Rightarrow> Inr new_df
      | Some existing_df \<Rightarrow>
          if df_empty existing_df then Inr new_df
          else if sheet_name = ''Resumo_Precipitacao'' then Inr new_df
          else if has_column ''data'' new_df \<and> has_column ''hora'' new_df
                  \<and> has_column ''data'' existing_df \<and> has_column ''hora'' existing_df
          then sort_by_datetime to_dt srt
                 (drop_duplicates [''data'', ''hora''] (pd_concat [existing_df, new_df]))
          else if has_column ''data'' new_df \<and> has_column ''data'' existing_df
          then sort_by_data srt (drop_duplicates [''data''] (pd_concat [existing_df, new_df]))
          else (let combined_df = pd_concat [existing_df, new_df]
                in if has_column ''data'' combined_df \<and> has_column ''hora'' combined_df
                   then sort_by_datetime to_dt srt combined_df
                   else if has_column ''data'' combined_df
                   then sort_by_data srt combined_df
                   else Inr combined_df))"

fun combine_all ::
  "('ts::linorder) to_datetime \<Rightarrow> sorter \<Rightarrow> dataset \<Rightarrow> dataset \<Rightarrow> error + dataset" where
  "combine_all to_dt srt existing_data [] = Inr []"
| "combine_all to_dt srt existing_data ((sheet_name, new_df) # rest) =
     (case combine_sheet to_dt srt existing_data sheet_name new_df of
        Inl e \<Rightarrow> Inl e
      | Inr combined_df \<Rightarrow>
          (case combine_all to_dt srt existing_data rest of
             Inl e \<Rightarrow> Inl e
           | Inr combined_data \<Rightarrow> Inr ((sheet_name, combined_df) # combined_data)))"

section \<open>The persisted workbook\<close>

text \<open>
  The file at \<open>filename\<close>: absent, unreadable as a workbook, or a workbook of named
  sheets, each of which \<open>pd.read_excel\<close> either parses to a frame or raises on. A
  sheet that was written is kept as the frame that was written; what \<open>pd.read_excel\<close>
  makes of its cells at the next read (a cell \<open>'N/A'\<close> comes back as NaN) is not
  modelled, every property below being about one call, which reads the sheets once and
  writes once.
\<close>

datatype sheet = Readable dataframe | Unparseable

datatype xlsx = Missing | Corrupt | Workbook "(string \<times> sheet) list"

text \<open>
  The loop over \<open>xls.sheet_names\<close>; \<open>None\<close> when \<open>pd.read_excel\<close> raises on a sheet.
\<close>

fun read_sheets :: "(string \<times> sheet) list \<Rightarrow> dataset option" where
  "read_sheets [] = Some []"
| "read_sheets ((sheet_name, Unparseable) # rest) = None"
| "read_sheets ((sheet_name, Readable df) # rest) =
     (case read_sheets rest of None \<Rightarrow> None | Some d \<Rightarrow> Some ((sheet_name, df) # d))"

text \<open>
  The inner \<open>try\<close> of \<open>save_precipitation_data\<close>, entered when the file exists: its
  handler resets \<open>existing_data\<close> to the empty dictionary.
\<close>

definition load_existing :: "xlsx \<Rightarrow> dataset" where
  "load_existing f =
     (case f of
        Missing \<Rightarrow> []
      | Corrupt \<Rightarrow> []
      | Workbook sheets \<Rightarrow> (case read_sheets sheets of None \<Rightarrow> [] | Some d \<Rightarrow> d))"

text \<open>The value of \<open>dataframes_dict\<close> when the writer is opened.\<close>

definition merged_dict ::
  "('ts::linorder) to_datetime \<Rightarrow> sorter \<Rightarrow> dataset \<Rightarrow> xlsx \<Rightarrow> error + dataset" where
  "merged_dict to_dt srt dataframes_dict f =
     (if f = Missing then Inr dataframes_dict
      else combine_all to_dt srt (load_existing f) dataframes_dict)"

text \<open>The sheets the writer loop writes: \<open>if not df.empty\<close>.\<close>

definition nonempty_sheets :: "dataset \<Rightarrow> dataset" where
  "nonempty_sheets d = filter (\<lambda>(sheet_name, df). \<not> df_empty df) d"

definition as_workbook :: "dataset \<Rightarrow> xlsx" where
  "as_workbook d = Workbook (map (\<lambda>(sheet_name, df). (sheet_name, Readable df)) d)"

text \<open>
  The disk: the file at \<open>filename\<close> and the timestamped backup files written so far.
\<close>

record disk =
  main_file :: xlsx
  backups :: "dataset list"

text \<open>
  The outer handler: the sheets of \<open>dataframes_dict\<close> go to a backup file. openpyxl
  refuses to save a workbook without a sheet, so with nothing to write the backup
  fails too.
\<close>

definition write_backup :: "dataset \<Rightarrow> disk \<Rightarrow> disk" where
  "write_backup d s =
     (if nonempty_sheets d = [] then s else s\<lparr>backups := backups s @ [nonempty_sheets d]\<rparr>)"

text \<open>
  \<open>save_precipitation_data\<close>. \<open>makedirs_ok\<close> is whether
  \<open>os.makedirs(os.path.dirname(filename), exist_ok=True)\<close> returns; it raises when the
  directory cannot be made, and also when \<open>filename\<close> has no directory part, since
  \<open>os.makedirs('')\<close> raises FileNotFoundError. An exception anywhere in the body goes to
  the outer handler. \<open>pd.ExcelWriter\<close> opens the file for writing and saves on exit:
  the file is replaced by the sheets written, and a save without any sheet raises and
  leaves the opened file unreadable. Disk errors other than these are outside the model.
\<close>

definition save_precipitation_data ::
  "('ts::linorder) to_datetime \<Rightarrow> sorter \<Rightarrow> bool \<Rightarrow> dataset \<Rightarrow> disk \<Rightarrow> disk" where
  "save_precipitation_data to_dt srt makedirs_ok dataframes_dict s =
     (if \<not> makedirs_ok then write_backup dataframes_dict s
      else case merged_dict to_dt srt dataframes_dict (main_file s) of
             Inl e \<Rightarrow> write_backup dataframes_dict s
           | Inr d \<Rightarrow>
               if nonempty_sheets d = [] then write_backup d (s\<lparr>main_file := Corrupt\<rparr>)
               else s\<lparr>main_file := as_workbook (nonempty_sheets d)\<rparr>)"

text \<open>The sheet of a file under a name, when the file is a workbook that has it.\<close>

definition stored :: "xlsx \<Rightarrow> string \<Rightarrow> sheet option" where
  "stored f sheet_name = (case f of Workbook sheets \<Rightarrow> map_of sheets sheet_name | _ \<Rightarrow> None)"

section \<open>The cycle of \<open>extract_precipitation_data\<close>\<close>

text \<open>
  \<open>create_precipitation_summary\<close>. Sums and means are taken in exact arithmetic and
  Python's \<open>round(x, 2)\<close> is the parameter \<open>round2\<close>. The labels are the source's,
  as UTF-8 bytes.
\<close>

definition metrica :: "string list" where
  "metrica =
     [''Dias com dados'', ''Dias com chuva'',
      ''Precipita'' @ [CHR 0xC3, CHR 0xA7, CHR 0xC3, CHR 0xA3] @ ''o total (mm)'',
      ''Precipita'' @ [CHR 0xC3, CHR 0xA7, CHR 0xC3, CHR 0xA3] @ ''o m'' @ [CHR 0xC3, CHR 0xA9] @ ''dia (mm)'',
      ''Precipita'' @ [CHR 0xC3, CHR 0xA7, CHR 0xC3, CHR 0xA3] @ ''o m'' @ [CHR 0xC3, CHR 0xA1] @ ''xima (mm)'',
      ''Precipita'' @ [CHR 0xC3, CHR 0xA7, CHR 0xC3, CHR 0xA3] @ ''o m'' @ [CHR 0xC3, CHR 0xAD] @ ''nima (mm)'']"

definition summary_frame :: "rat list \<Rightarrow> dataframe" where
  "summary_frame valor =
     \<lparr>columns = [''metrica'', ''valor''],
      rows = map (\<lambda>(m, v). [(''metrica'', Str m), (''valor'', Num v)]) (zip metrica valor)\<rparr>"

fun positive :: "cell \<Rightarrow> rat list" where
  "positive (Num x) = (if 0 < x then [x] else [])"
| "positive _ = []"

definition create_precipitation_summary :: "(rat \<Rightarrow> rat) \<Rightarrow> dataframe \<Rightarrow> error + dataframe" where
  "create_precipitation_summary round2 df =
     (if df_empty df then Inr DataFrame_empty
      else if \<not> has_column ''precipitacao_mm'' df then Inl KeyError
      else if \<exists>r \<in> set (rows df). is_Str (cell_at r ''precipitacao_mm'') then Inl TypeError
      else (case concat (map (\<lambda>r. positive (cell_at r ''precipitacao_mm'')) (rows df)) of
              [] \<Rightarrow> Inr (summary_frame [of_nat (length (rows df)), 0, 0, 0, 0, 0])
            | x # xs \<Rightarrow>
                Inr (summary_frame
                  [of_nat (length (rows df)),
                   of_nat (length (x # xs)),
                   round2 (sum_list (x # xs)),
                   round2 (sum_list (x # xs) / of_nat (length (x # xs))),
                   round2 (fold max xs x),
                   round2 (fold min xs x)])))"

text \<open>
  \<open>df.sort_values('data').reset_index(drop=True) if not df.empty and 'data' in
  df.columns else df\<close>.
\<close>

definition sort_if_dated :: "sorter \<Rightarrow> dataframe \<Rightarrow> error + dataframe" where
  "sort_if_dated srt df =
     (if \<not> df_empty df \<and> has_column ''data'' df then sort_by_data srt df else Inr df)"

text \<open>
  The dictionary \<open>extract_precipitation_data\<close> builds from the frames the normalizers
  returned, in the order the source evaluates it.
\<close>

definition build_dataframes ::
  "sorter \<Rightarrow> (rat \<Rightarrow> rat) \<Rightarrow> dataframe \<Rightarrow> dataframe \<Rightarrow> dataframe \<Rightarrow> dataframe \<Rightarrow> error + dataset" where
  "build_dataframes srt round2 historical_df current_df forecast_df hourly_df =
     (case sort_if_dated srt (pd_concat [historical_df, current_df, forecast_df]) of
        Inl e \<Rightarrow> Inl e
      | Inr all_daily_data \<Rightarrow>
     (case create_precipitation_summary round2 all_daily_data of
        Inl e \<Rightarrow> Inl e
      | Inr summary_df \<Rightarrow>
     (case sort_if_dated srt historical_df of
        Inl e \<Rightarrow> Inl e
      | Inr historical_sorted \<Rightarrow>
     (case sort_if_dated srt forecast_df of
        Inl e \<Rightarrow> Inl e
      | Inr forecast_sorted \<Rightarrow>
          Inr ([(''Resumo_Precipitacao'', summary_df),
                (''Dados_Diarios'', all_daily_data),
                (''Dados_Historicos'', historical_sorted),
                (''Dados_Atuais'', current_df),
                (''Previsao_Precipitacao'', forecast_sorted)]
               @ (if \<not> df_empty hourly_df then [(''Dados_Horarios'', hourly_df)] else []))))))"

definition extract_precipitation_data ::
  "('ts::linorder) to_datetime \<Rightarrow> sorter \<Rightarrow> (rat \<Rightarrow> rat) \<Rightarrow> bool \<Rightarrow>
   dataframe \<Rightarrow> dataframe \<Rightarrow> dataframe \<Rightarrow> dataframe \<Rightarrow> disk \<Rightarrow> error + disk" where
  "extract_precipitation_data to_dt srt round2 makedirs_ok
       historical_df current_df forecast_df hourly_df s =
     (case build_dataframes srt round2 historical_df current_df forecast_df hourly_df of
        Inl e \<Rightarrow> Inl e
      | Inr dataframes \<Rightarrow> Inr (save_precipitation_data to_dt srt makedirs_ok dataframes s))"

section \<open>The AccuWeather path: \<open>save_to_excel\<close>\<close>

definition column_order :: "string list" where
  "column_order =
     [''data'', ''hora'', ''precipitacao_mm'', ''umidade_percent'', ''nuvens_percent'',
      ''condicao_tempo'', ''chance_chuva'', ''HasPrecipitation'']"

text \<open>\<open>pd.DataFrame(new_data)\<close> on a list of records.\<close>

definition frame_of_records :: "row list \<Rightarrow> dataframe" where
  "frame_of_records recs =
     (let cols = foldl union_columns [] (map (map fst) recs)
      in \<lparr>columns = cols, rows = map (reindex cols) recs\<rparr>)"

text \<open>\<open>df[cols]\<close>, for columns the frame has.\<close>

definition select_columns :: "string list \<Rightarrow> dataframe \<Rightarrow> dataframe" where
  "select_columns cols df = \<lparr>columns = cols, rows = map (reindex cols) (rows df)\<rparr>"

text \<open>
  The \<open>try\<close> block of \<open>save_to_excel\<close>, entered when the file exists. \<open>Inl\<close> is an
  exception, which the handler answers with \<open>df_combined = df_new\<close>; \<open>Inr None\<close> is the
  early \<open>return False\<close>; \<open>Inr (Some df)\<close> is \<open>df_combined\<close>. \<open>stamp_new\<close> is the column
  \<open>DateTime_temp\<close> of the new records. That of the stored rows is computed with
  \<open>errors='coerce'\<close> (\<open>to_dt_coerce\<close>): an element that does not parse becomes NaT, but
  joining the cells can still raise. \<open>isin\<close> finds NaT among NaT. The concatenation
  carries \<open>DateTime_temp\<close> along, the stored rows' values before the new rows', and is
  sorted by it.
\<close>

definition read_and_combine ::
  "('ts::linorder) to_datetime \<Rightarrow> sorter \<Rightarrow> dataframe \<Rightarrow> (row \<Rightarrow> 'ts stamp) \<Rightarrow> xlsx
     \<Rightarrow> error + dataframe option" where
  "read_and_combine to_dt_coerce srt df_new stamp_new f =
     (case f of
        Missing \<Rightarrow> Inl OSError
      | Corrupt \<Rightarrow> Inl ValueError
      | Workbook sheets \<Rightarrow>
          (case map_of sheets ''Dados_Completos'' of
             None \<Rightarrow> Inl ValueError
           | Some Unparseable \<Rightarrow> Inl ValueError
           | Some (Readable df_existing) \<Rightarrow>
               if \<not> (has_column ''data'' df_existing \<and> has_column ''hora'' df_existing)
               then Inl KeyError
               else (case datetime_temp to_dt_coerce df_existing of
                       Inl e \<Rightarrow> Inl e
                     | Inr stamp_existing \<Rightarrow>
                         (let df_new_filtered =
                                df_new\<lparr>rows := filter (\<lambda>r. stamp_new r
                                    \<notin> set (map stamp_existing (rows df_existing))) (rows df_new)\<rparr>
                          in if df_empty df_new_filtered then Inr None
                             else (let df_combined = pd_concat [df_existing, df_new_filtered]
                                   in Inr (Some (df_combined\<lparr>rows :=
                                        sort_values srt stamp_le
                                          (map stamp_existing (rows df_existing)
                                             @ map stamp_new (rows df_new_filtered))
                                          (rows df_combined)\<rparr>)))))))"

text \<open>
  What \<open>save_to_excel\<close> decides before it opens the writer: \<open>Unwritten\<close> is a
  \<open>return False\<close> with the file not touched, \<open>Written df\<close> is the frame handed to
  \<open>pd.ExcelWriter\<close> as \<open>Dados_Completos\<close> (the two sheets derived from it and the
  outcome of the write are not modelled). \<open>Inl\<close> is an exception that leaves the function.
\<close>

datatype outcome = Unwritten | Written dataframe

definition save_to_excel ::
  "('ts::linorder) to_datetime \<Rightarrow> 'ts to_datetime \<Rightarrow> sorter \<Rightarrow> row list \<Rightarrow> xlsx
     \<Rightarrow> error + outcome" where
  "save_to_excel to_dt to_dt_coerce srt new_data f =
     (if new_data = [] then Inr Unwritten
      else (let df_new = frame_of_records new_data
            in if \<not> (has_column ''data'' df_new \<and> has_column ''hora'' df_new) then Inl KeyError
               else (case datetime_temp to_dt df_new of
                       Inl e \<Rightarrow> Inl e
                     | Inr stamp_new \<Rightarrow>
                         (case (if f = Missing then Some df_new
                                else (case read_and_combine to_dt_coerce srt df_new stamp_new f of
                                        Inl e \<Rightarrow> Some df_new
                                      | Inr x \<Rightarrow> x)) of
                            None \<Rightarrow> Inr Unwritten
                          | Some df_combined \<Rightarrow>
                              if set column_order \<subseteq> set (columns df_combined)
                              then Inr (Written (select_columns column_order df_combined))
                              else Inl KeyError))))"

section \<open>The normalizers\<close>












section \<open>Notions the properties are stated with\<close>

text \<open>
  The columns the merger deduplicates on, by the tests of \<open>combine_sheet\<close>: date and
  time of day when both frames carry both, the date when both carry it, none otherwise.
\<close>

definition dedup_subset :: "dataframe \<Rightarrow> dataframe \<Rightarrow> string list option" where
  "dedup_subset existing_df new_df =
     (if has_column ''data'' new_df \<and> has_column ''hora'' new_df
         \<and> has_column ''data'' existing_df \<and> has_column ''hora'' existing_df
      then Some [''data'', ''hora'']
      else if has_column ''data'' new_df \<and> has_column ''data'' existing_df
      then Some [''data'']
      else None)"

text \<open>
  The two orders the merger sorts rows by: the column \<open>datetime_temp\<close>, and the date.
\<close>

definition by_stamp :: "(row \<Rightarrow> ('ts::linorder) stamp) \<Rightarrow> row \<Rightarrow> row \<Rightarrow> bool" where
  "by_stamp stamp a b = stamp_le (stamp a) (stamp b)"

definition by_data :: "row \<Rightarrow> row \<Rightarrow> bool" where
  "by_data a b = cell_le (cell_at a ''data'') (cell_at b ''data'')"

text \<open>
  A table in strict chronological order, as a merge leaves it: by the timestamps
  \<open>pd.to_datetime\<close> computes on it when it carries date and time of day, by the date when
  it carries the date; no two rows share the sort key.
\<close>

definition strictly_chronological :: "('ts::linorder) to_datetime \<Rightarrow> dataframe \<Rightarrow> bool" where
  "strictly_chronological to_dt df \<longleftrightarrow>
     (if has_column ''data'' df \<and> has_column ''hora'' df
      then (case datetime_temp to_dt df of
              Inl e \<Rightarrow> False
            | Inr stamp \<Rightarrow> sorted_wrt (\<lambda>a b. by_stamp stamp a b \<and> stamp a \<noteq> stamp b) (rows df))
      else if has_column ''data'' df
      then sorted_wrt (\<lambda>a b. by_data a b \<and> cell_at a ''data'' \<noteq> cell_at b ''data'') (rows df)
      else True)"

text \<open>
  A parser that does not depend on the order of the column: the same elements give the
  same outcome and the same timestamps.
\<close>

definition order_blind :: "'ts to_datetime \<Rightarrow> bool" where
  "order_blind to_dt \<longleftrightarrow> (\<forall>col col'. mset col = mset col' \<longrightarrow> to_dt col = to_dt col')"





section \<open>Instances and data for the closed examples\<close>

text \<open>Insertion sort by a given order; it is one of the sorters \<open>is_sorter\<close> admits.\<close>

fun insert_by :: "('a \<Rightarrow> 'a \<Rightarrow> bool) \<Rightarrow> 'a \<Rightarrow> 'a list \<Rightarrow> 'a list" where
  "insert_by le x [] = [x]"
| "insert_by le x (y # ys) = (if le x y then x # y # ys else y # insert_by le x ys)"

definition insertion_sort :: "('a \<Rightarrow> 'a \<Rightarrow> bool) \<Rightarrow> 'a list \<Rightarrow> 'a list" where
  "insertion_sort le xs = foldr (insert_by le) xs []"

text \<open>
  A reading of \<open>pd.to_datetime\<close> on the strings the program stores. A date
  \<open>YYYY-MM-DD\<close> joined with a time \<open>HH:MM:SS\<close> or \<open>HH:MM\<close> gives the timestamp
  \<open>YYYYMMDDHHMMSS\<close> as a number; an element with a missing cell gives NaT. A number
  among the cells makes the join raise TypeError. The strings of a column must all have
  the one format or all the other, else the parse raises ValueError; with
  \<open>errors='coerce'\<close> the format is that of the first string and an element that does
  not have it gives NaT.
\<close>

definition digit :: "char \<Rightarrow> bool" where
  "digit c \<longleftrightarrow> c \<in> set ''0123456789''"

definition shape :: "string \<Rightarrow> string" where
  "shape s = map (\<lambda>c. if digit c then CHR ''9'' else c) s"

definition digits_value :: "string \<Rightarrow> nat" where
  "digits_value s = foldl (\<lambda>n c. if digit c then 10 * n + (of_char c - 48) else n) 0 s"

fun joined_shape :: "cell \<times> cell \<Rightarrow> string list" where
  "joined_shape (Str d, Str h) = [shape d @ '' '' @ shape h]"
| "joined_shape (d, h) = []"

fun iso_stamp :: "cell \<times> cell \<Rightarrow> nat stamp" where
  "iso_stamp (Str d, Str h) =
     At (digits_value d * 1000000 + (if length h = 5 then digits_value h * 100 else digits_value h))"
| "iso_stamp (d, h) = NaT"

definition joins :: "(cell \<times> cell) list \<Rightarrow> bool" where
  "joins col \<longleftrightarrow> list_all (\<lambda>e. \<not> is_Num (fst e) \<and> \<not> is_Num (snd e)) col"

definition iso_to_datetime :: "nat to_datetime" where
  "iso_to_datetime col =
     (if \<not> joins col then Inl TypeError
      else if list_all (\<lambda>s. s = ''9999-99-99 99:99:99'') (concat (map joined_shape col))
              \<or> list_all (\<lambda>s. s = ''9999-99-99 99:99'') (concat (map joined_shape col))
      then Inr iso_stamp
      else Inl ValueError)"

definition iso_to_datetime_coerce :: "nat to_datetime" where
  "iso_to_datetime_coerce col =
     (if \<not> joins col then Inl TypeError
      else (case concat (map joined_shape col) of
              [] \<Rightarrow> Inr (\<lambda>e. NaT)
            | s # ss \<Rightarrow>
                Inr (\<lambda>e. if joined_shape e = [s]
                            \<and> (s = ''9999-99-99 99:99:99'' \<or> s = ''9999-99-99 99:99'')
                         then iso_stamp e else NaT)))"


definition no_rounding :: "rat \<Rightarrow> rat" where
  "no_rounding x = x"

text \<open>The daily tables of the overwrite-on-refetch example.\<close>

definition daily_existing :: dataframe where
  "daily_existing =
     \<lparr>columns = [''data'', ''precipitacao_mm''],
      rows = [[(''data'', Str ''2024-01-01''), (''precipitacao_mm'', Num 1)]]\<rparr>"

definition daily_new :: dataframe where
  "daily_new =
     \<lparr>columns = [''data'', ''precipitacao_mm''],
      rows = [[(''data'', Str ''2024-01-01''), (''precipitacao_mm'', Num (5 / 2))]]\<rparr>"

text \<open>
  An hourly table, a new table that carries the date only, and their merge; and an
  hourly table whose rows are not in chronological order.
\<close>

definition hourly_existing :: dataframe where
  "hourly_existing =
     \<lparr>columns = [''data'', ''hora''],
      rows = [[(''data'', Str ''2024-01-01''), (''hora'', Str ''10:00'')],
              [(''data'', Str ''2024-01-03''), (''hora'', Str ''09:00'')]]\<rparr>"




text \<open>
  A persisted workbook with a historical, a forecast and an hourly table, and a cycle in
  which only the historical query returns data.
\<close>

definition forecast_existing :: dataframe where
  "forecast_existing =
     \<lparr>columns = [''data'', ''precipitacao_mm''],
      rows = [[(''data'', Str ''2024-01-05''), (''precipitacao_mm'', Num 4)]]\<rparr>"

definition historical_fetched :: dataframe where
  "historical_fetched =
     \<lparr>columns = [''data'', ''precipitacao_mm''],
      rows = [[(''data'', Str ''2024-01-02''), (''precipitacao_mm'', Num 3)]]\<rparr>"

definition historical_merged :: dataframe where
  "historical_merged =
     \<lparr>columns = [''data'', ''precipitacao_mm''],
      rows = [[(''data'', Str ''2024-01-01''), (''precipitacao_mm'', Num 1)],
              [(''data'', Str ''2024-01-02''), (''precipitacao_mm'', Num 3)]]\<rparr>"

definition disk_before :: disk where
  "disk_before =
     \<lparr>main_file = Workbook [(''Dados_Historicos'', Readable daily_existing),
                            (''Previsao_Precipitacao'', Readable forecast_existing),
                            (''Dados_Horarios'', Readable hourly_existing)],
      backups = []\<rparr>"

definition disk_after :: disk where
  "disk_after =
     \<lparr>main_file = Workbook [(''Resumo_Precipitacao'', Readable (summary_frame [1, 1, 3, 3, 3, 3])),
                            (''Dados_Diarios'', Readable historical_fetched),
                            (''Dados_Historicos'', Readable historical_merged),
                            (''Previsao_Precipitacao'', Readable forecast_existing)],
      backups = []\<rparr>"

text \<open>
  An hourly table with two hours of one day, a new table that carries the date column
  and has no row, and what their merge leaves.
\<close>

definition hourly_same_day :: dataframe where
  "hourly_same_day =
     \<lparr>columns = [''data'', ''hora''],
      rows = [[(''data'', Str ''2024-01-01''), (''hora'', Str ''10:00'')],
              [(''data'', Str ''2024-01-01''), (''hora'', Str ''11:00'')]]\<rparr>"

definition hourly_last_hour :: dataframe where
  "hourly_last_hour =
     \<lparr>columns = [''data'', ''hora''],
      rows = [[(''data'', Str ''2024-01-01''), (''hora'', Str ''11:00'')]]\<rparr>"

definition dated_no_rows :: dataframe where
  "dated_no_rows = \<lparr>columns = [''data''], rows = []\<rparr>"





text \<open>
  The table stored by the AccuWeather path; records for an hour it has and an hour it
  has not; and a stored table in which one date cell holds a number.
\<close>

definition accu_row :: "cell \<Rightarrow> cell \<Rightarrow> rat \<Rightarrow> row" where
  "accu_row d h p =
     [(''data'', d), (''hora'', h), (''precipitacao_mm'', Num p),
      (''umidade_percent'', Num 80), (''nuvens_percent'', Num 40),
      (''condicao_tempo'', Str ''Cloudy''), (''chance_chuva'', Num 20),
      (''HasPrecipitation'', Num 0)]"

definition accu_record :: "string \<Rightarrow> string \<Rightarrow> rat \<Rightarrow> row" where
  "accu_record d h p = accu_row (Str d) (Str h) p"

definition accu_table :: dataframe where
  "accu_table =
     \<lparr>columns = column_order,
      rows = [accu_record ''2024-01-01'' ''10:00:00'' 0,
              accu_record ''2024-01-01'' ''11:00:00'' 1]\<rparr>"

definition accu_stored :: xlsx where
  "accu_stored = Workbook [(''Dados_Completos'', Readable accu_table)]"



definition accu_table_number :: dataframe where
  "accu_table_number =
     \<lparr>columns = column_order,
      rows = [accu_row (Num 45291) (Str ''10:00:00'') 0,
              accu_record ''2024-01-01'' ''11:00:00'' 1]\<rparr>"

definition accu_stored_number :: xlsx where
  "accu_stored_number = Workbook [(''Dados_Completos'', Readable accu_table_number)]"


section \<open>Facts about the library operations\<close>

lemma keep_last_subset: "set (keep_last k xs) \<subseteq> set xs"
  by (induction xs) auto

lemma keep_last_keys: "k ` set (keep_last k xs) = k ` set xs"
  by (induction xs) auto

lemma distinct_keep_last: "distinct (map k (keep_last k xs))"
proof (induction xs)
  case Nil
  then show ?case by simp
next
  case (Cons x xs)
  have "k x \<notin> k ` set xs \<Longrightarrow> k x \<notin> k ` set (keep_last k xs)"
    by (simp add: keep_last_keys)
  with Cons show ?case by auto
qed

lemma keep_last_id: "distinct (map k xs) \<Longrightarrow> keep_last k xs = xs"
  by (induction xs) auto


lemma strict_sorted_distinct_keys:
  "sorted_wrt (\<lambda>a b. P a b \<and> f a \<noteq> f b) xs \<Longrightarrow> distinct (map f xs)"
  by (induction xs) auto

lemma distinct_finer_key:
  assumes "distinct (map f xs)" and "\<And>a b. k a = k b \<Longrightarrow> f a = f b"
  shows "distinct (map k xs)"
proof -
  from assms(1) have d: "distinct xs" and i: "inj_on f (set xs)" by (simp_all add: distinct_map)
  have "inj_on k (set xs)"
  proof (rule inj_onI)
    fix a b assume "a \<in> set xs" "b \<in> set xs" "k a = k b"
    with assms(2) i show "a = b" by (auto dest: inj_onD)
  qed
  with d show ?thesis by (simp add: distinct_map)
qed

lemma keep_last_append_subset:
  assumes d: "distinct (map k xs)" and sub: "set ys \<subseteq> set xs"
  shows "mset (keep_last k (xs @ ys)) = mset xs"
proof -
  let ?r = "keep_last k (xs @ ys)"
  have dk: "distinct (map k ?r)" by (rule distinct_keep_last)
  then have dr: "distinct ?r" by (simp add: distinct_map)
  from d have dx: "distinct xs" by (simp add: distinct_map)
  from d have inj: "inj_on k (set xs)" by (simp add: distinct_map)
  have s1: "set ?r \<subseteq> set xs" using keep_last_subset[of k "xs @ ys"] sub by auto
  have "set xs \<subseteq> set ?r"
  proof
    fix x assume x: "x \<in> set xs"
    then have "k x \<in> k ` set (xs @ ys)" by simp
    then have "k x \<in> k ` set ?r" by (simp only: keep_last_keys)
    then obtain z where z: "z \<in> set ?r" "k z = k x" by auto
    with s1 have "z \<in> set xs" by auto
    with inj x z(2) have "z = x" by (auto dest: inj_onD)
    with z show "x \<in> set ?r" by simp
  qed
  with s1 have "set ?r = set xs" by auto
  with dr dx show ?thesis by (simp add: set_eq_iff_mset_eq_distinct)
qed

lemma stamp_le_total: "stamp_le a b \<or> stamp_le b a"
  by (cases a; cases b) auto

lemma stamp_le_trans: "stamp_le a b \<Longrightarrow> stamp_le b c \<Longrightarrow> stamp_le a c"
  by (cases a; cases b; cases c) auto

lemma stamp_le_antisym: "stamp_le a b \<Longrightarrow> stamp_le b a \<Longrightarrow> a = b"
  by (cases a; cases b) auto

lemma cell_le_total: "cell_le a b \<or> cell_le b a"
  by (cases a; cases b) auto

lemma cell_le_trans: "cell_le a b \<Longrightarrow> cell_le b c \<Longrightarrow> cell_le a c"
  by (cases a; cases b; cases c) auto

lemma cell_le_antisym: "cell_le a b \<Longrightarrow> cell_le b a \<Longrightarrow> a = b"
  by (cases a; cases b) auto

lemma is_sorterD:
  assumes "is_sorter srt"
    and "\<And>a b. le a b \<or> le b a"
    and "\<And>a b c. le a b \<Longrightarrow> le b c \<Longrightarrow> le a c"
  shows "sorted_wrt le (srt le xs)" and "mset (srt le xs) = mset xs"
proof -
  have t: "\<forall>a b. le a b \<or> le b a" using assms(2) by simp
  have tr: "\<forall>a b c. le a b \<longrightarrow> le b c \<longrightarrow> le a c" using assms(3) by simp
  from assms(1) have "(\<forall>a b. le a b \<or> le b a) \<and> (\<forall>a b c. le a b \<longrightarrow> le b c \<longrightarrow> le a c)
        \<longrightarrow> sorted_wrt le (srt le xs) \<and> mset (srt le xs) = mset xs"
    unfolding is_sorter_def by (elim allE)
  with t tr show "sorted_wrt le (srt le xs)" and "mset (srt le xs) = mset xs" by simp_all
qed

lemma sort_values_mset:
  assumes "is_sorter srt"
    and "\<And>a b. le a b \<or> le b a"
    and "\<And>a b c. le a b \<Longrightarrow> le b c \<Longrightarrow> le a c"
  shows "mset (sort_values srt le keys xs) = mset xs"
proof -
  let ?L = "\<lambda>i j. le (keys ! i) (keys ! j)"
  let ?p = "srt ?L [0..<length xs]"
  have "mset ?p = mset [0..<length xs]"
    by (rule is_sorterD(2)[OF assms(1), of ?L]) (use assms(2,3) in blast)+
  then have "image_mset (\<lambda>i. xs ! i) (mset ?p) = image_mset (\<lambda>i. xs ! i) (mset [0..<length xs])"
    by simp
  then have "mset (map (\<lambda>i. xs ! i) ?p) = mset (map (\<lambda>i. xs ! i) [0..<length xs])"
    by simp
  then show ?thesis by (simp add: sort_values_def map_nth)
qed

lemma sort_values_sorted:
  assumes "is_sorter srt"
    and "\<And>a b. le a b \<or> le b a"
    and "\<And>a b c. le a b \<Longrightarrow> le b c \<Longrightarrow> le a c"
  shows "sorted_wrt (\<lambda>a b. le (k a) (k b)) (sort_values srt le (map k xs) xs)"
proof -
  define L where "L = (\<lambda>i j. le (map k xs ! i) (map k xs ! j))"
  define p where "p = srt L [0..<length xs]"
  have tot: "\<And>a b. L a b \<or> L b a" unfolding L_def using assms(2) by blast
  have tr: "\<And>a b c. L a b \<Longrightarrow> L b c \<Longrightarrow> L a c" unfolding L_def using assms(3) by blast
  have s: "sorted_wrt L p" unfolding p_def by (rule is_sorterD(1)[OF assms(1) tot tr])
  have "mset p = mset [0..<length xs]" unfolding p_def by (rule is_sorterD(2)[OF assms(1) tot tr])
  then have "set p = set [0..<length xs]" by (rule mset_eq_setD)
  then have r: "\<And>i. i \<in> set p \<Longrightarrow> i < length xs" by simp
  have "sorted_wrt (\<lambda>i j. le (k (xs ! i)) (k (xs ! j))) p"
  proof (rule sorted_wrt_mono_rel[OF _ s])
    fix i j assume "i \<in> set p" "j \<in> set p" "L i j"
    with r show "le (k (xs ! i)) (k (xs ! j))" by (simp add: L_def)
  qed
  then have "sorted_wrt (\<lambda>a b. le (k a) (k b)) (map (\<lambda>i. xs ! i) p)"
    by (simp only: sorted_wrt_map)
  then show ?thesis by (simp only: sort_values_def p_def L_def length_map)
qed

lemma sort_by_datetime_mset:
  assumes "is_sorter srt" and "sort_by_datetime to_dt srt df = Inr out"
  shows "\<exists>stamp. datetime_temp to_dt df = Inr stamp
     \<and> mset (rows out) = mset (rows df) \<and> columns out = columns df
     \<and> sorted_wrt (by_stamp stamp) (rows out)"
proof -
  from assms(2) obtain stamp where st: "datetime_temp to_dt df = Inr stamp"
    and out: "out = df\<lparr>rows := sort_values srt stamp_le (map stamp (rows df)) (rows df)\<rparr>"
    by (auto simp: sort_by_datetime_def split: sum.splits)
  have m: "mset (sort_values srt stamp_le (map stamp (rows df)) (rows df)) = mset (rows df)"
    by (rule sort_values_mset[OF assms(1)]) (use stamp_le_total stamp_le_trans in blast)+
  have s: "sorted_wrt (\<lambda>a b. stamp_le (stamp a) (stamp b))
             (sort_values srt stamp_le (map stamp (rows df)) (rows df))"
    by (rule sort_values_sorted[OF assms(1)]) (use stamp_le_total stamp_le_trans in blast)+
  from st out m s show ?thesis by (auto simp: by_stamp_def[abs_def])
qed

lemma sort_by_data_mset:
  assumes "is_sorter srt" and "sort_by_data srt df = Inr out"
  shows "mset (rows out) = mset (rows df) \<and> columns out = columns df
   \<and> sorted_wrt by_data (rows out)"
proof -
  let ?k = "\<lambda>r. cell_at r ''data''"
  from assms(2) have out: "out = df\<lparr>rows := sort_values srt cell_le (map ?k (rows df)) (rows df)\<rparr>"
    by (simp add: sort_by_data_def split: if_splits)
  have m: "mset (sort_values srt cell_le (map ?k (rows df)) (rows df)) = mset (rows df)"
    by (rule sort_values_mset[OF assms(1)]) (use cell_le_total cell_le_trans in blast)+
  have s: "sorted_wrt (\<lambda>a b. cell_le (?k a) (?k b))
             (sort_values srt cell_le (map ?k (rows df)) (rows df))"
    by (rule sort_values_sorted[OF assms(1)]) (use cell_le_total cell_le_trans in blast)+
  from out m s show ?thesis by (simp add: by_data_def[abs_def])
qed


lemma sorted_wrt_unique:
  assumes anti: "\<And>u v. kle u v \<Longrightarrow> kle v u \<Longrightarrow> u = v"
  shows "sorted_wrt (\<lambda>a b. kle (f a) (f b) \<and> f a \<noteq> f b) xs \<Longrightarrow>
         sorted_wrt (\<lambda>a b. kle (f a) (f b)) ys \<Longrightarrow> mset ys = mset xs \<Longrightarrow> ys = xs"
proof (induction xs arbitrary: ys)
  case Nil
  then show ?case by simp
next
  case (Cons x xs)
  from Cons.prems(3) have "ys \<noteq> []" by auto
  then obtain y ys' where ys: "ys = y # ys'" by (cases ys) auto
  have "y = x"
  proof (rule ccontr)
    assume neq: "y \<noteq> x"
    have "y \<in># mset (x # xs)" using Cons.prems(3) ys by (metis list.set_intros(1) set_mset_mset)
    with neq have "y \<in> set xs" by simp
    with Cons.prems(1) have 1: "kle (f x) (f y)" and 2: "f x \<noteq> f y" by auto
    have "x \<in># mset ys" using Cons.prems(3) by simp
    with neq ys have "x \<in> set ys'" by simp
    with Cons.prems(2) ys have "kle (f y) (f x)" by auto
    with 1 anti have "f x = f y" by blast
    with 2 show False by simp
  qed
  with Cons.prems ys have "ys' = xs" by (intro Cons.IH) auto
  with \<open>y = x\<close> ys show ?case by simp
qed

lemma sortable_mono: "set cs \<subseteq> set ds \<Longrightarrow> sortable ds \<Longrightarrow> sortable cs"
  unfolding sortable_def by blast

lemma mset_insert_by: "mset (insert_by le x ys) = add_mset x (mset ys)"
  by (induction ys) auto

lemma set_insert_by: "set (insert_by le x ys) = insert x (set ys)"
  by (induction ys) auto

lemma sorted_insert_by:
  assumes tot: "\<And>a b. le a b \<or> le b a"
    and tr: "\<And>a b c. le a b \<Longrightarrow> le b c \<Longrightarrow> le a c"
  shows "sorted_wrt le ys \<Longrightarrow> sorted_wrt le (insert_by le x ys)"
proof (induction ys)
  case Nil
  then show ?case by simp
next
  case (Cons y ys)
  show ?case
  proof (cases "le x y")
    case True
    with Cons.prems tr show ?thesis by fastforce
  next
    case False
    with tot have "le y x" by blast
    with Cons False show ?thesis by (auto simp: set_insert_by)
  qed
qed

lemma is_sorter_insertion_sort: "is_sorter insertion_sort"
  unfolding is_sorter_def
proof (intro allI impI, elim conjE)
  fix le :: "nat \<Rightarrow> nat \<Rightarrow> bool" and xs
  assume tot: "\<forall>a b. le a b \<or> le b a" and tr: "\<forall>a b c. le a b \<longrightarrow> le b c \<longrightarrow> le a c"
  have s: "sorted_wrt le (insertion_sort le xs)"
  proof (induction xs)
    case Nil
    then show ?case by (simp add: insertion_sort_def)
  next
    case (Cons x xs)
    have "sorted_wrt le (insert_by le x (insertion_sort le xs))"
      by (rule sorted_insert_by) (use tot tr Cons in blast)+
    then show ?case by (simp add: insertion_sort_def)
  qed
  have m: "mset (insertion_sort le xs) = mset xs"
    by (induction xs) (simp_all add: insertion_sort_def mset_insert_by)
  from s m show "sorted_wrt le (insertion_sort le xs) \<and> mset (insertion_sort le xs) = mset xs" ..
qed

lemma map_of_reindex:
  "map_of (map (\<lambda>c. (c, f c)) cols) c = (if c \<in> set cols then Some (f c) else None)"
  by (induction cols) auto

lemma cell_at_reindex:
  "cell_at (reindex cols r) c = (if c \<in> set cols then cell_at r c else NaN)"
  by (simp add: reindex_def map_of_reindex cell_at_def[of "map _ _"])


lemma date_time_reindex:
  "''data'' \<in> set cols \<Longrightarrow> ''hora'' \<in> set cols \<Longrightarrow> date_time (reindex cols r) = date_time r"
  by (simp add: date_time_def cell_at_reindex)

lemma reindex_id:
  assumes "distinct (map fst r)"
  shows "reindex (map fst r) r = r"
proof -
  have "\<And>p. p \<in> set r \<Longrightarrow> (fst p, cell_at r (fst p)) = p"
  proof -
    fix p assume "p \<in> set r"
    then have "map_of r (fst p) = Some (snd p)"
      using assms map_of_is_SomeI[of r "fst p" "snd p"] by simp
    then show "(fst p, cell_at r (fst p)) = p" by (simp add: cell_at_def)
  qed
  then have "map (\<lambda>p. (fst p, cell_at r (fst p))) r = r" by (simp add: map_idI)
  then show ?thesis by (simp add: reindex_def comp_def)
qed

lemma set_union_columns: "set (union_columns acc cs) = set acc \<union> set cs"
  by (induction cs arbitrary: acc) auto

lemma union_columns_distinct:
  "distinct (acc @ cs) \<Longrightarrow> union_columns acc cs = acc @ cs"
  by (induction cs arbitrary: acc) auto

lemma columns_pd_concat2:
  "set (columns (pd_concat [a, b])) = set (columns a) \<union> set (columns b)"
  by (simp add: pd_concat_def Let_def set_union_columns)

lemma rows_pd_concat2:
  "rows (pd_concat [a, b]) = map (reindex (columns (pd_concat [a, b]))) (rows a @ rows b)"
  by (simp add: pd_concat_def Let_def)

lemma pd_concat_empty_right:
  assumes "wf_frame df"
  shows "pd_concat [df, DataFrame_empty] = df"
proof -
  from assms have d: "distinct (columns df)" and r: "\<forall>r \<in> set (rows df). map fst r = columns df"
    by (simp_all add: wf_frame_def)
  from d have c: "union_columns [] (columns df) = columns df"
    using union_columns_distinct[of "[]" "columns df"] by simp
  have "map (reindex (columns df)) (rows df) = rows df"
  proof (rule map_idI)
    fix x assume "x \<in> set (rows df)"
    with r d have "map fst x = columns df" "distinct (map fst x)" by auto
    then show "reindex (columns df) x = x" using reindex_id[of x] by simp
  qed
  with c show ?thesis by (simp add: pd_concat_def DataFrame_empty_def)
qed

lemma pd_concat_same_columns:
  assumes wf: "wf_frame a" and c: "columns b = columns a"
    and sub: "set (rows b) \<subseteq> set (rows a)"
  shows "pd_concat [a, b] = \<lparr>columns = columns a, rows = rows a @ rows b\<rparr>"
proof -
  from wf have d: "distinct (columns a)" and r: "\<forall>r \<in> set (rows a). map fst r = columns a"
    by (simp_all add: wf_frame_def)
  have u1: "union_columns [] (columns a) = columns a"
    using union_columns_distinct[of "[]" "columns a"] d by simp
  have u2: "union_columns acc cs = acc" if "set cs \<subseteq> set acc" for acc cs :: "string list"
    using that by (induction cs arbitrary: acc) auto
  have cols: "foldl union_columns [] [columns a, columns b] = columns a"
    by (simp add: u1 c u2)
  have "map (reindex (columns a)) (rows a @ rows b) = rows a @ rows b"
  proof (rule map_idI)
    fix x assume "x \<in> set (rows a @ rows b)"
    with sub have "x \<in> set (rows a)" by auto
    with r d have "map fst x = columns a" "distinct (map fst x)" by auto
    then show "reindex (columns a) x = x" using reindex_id[of x] by simp
  qed
  with cols show ?thesis by (simp add: pd_concat_def Let_def del: foldl_Cons)
qed

lemma frame_of_uniform_records:
  assumes "recs \<noteq> []" and u: "\<forall>r \<in> set recs. map fst r = cols" and d: "distinct cols"
  shows "frame_of_records recs = \<lparr>columns = cols, rows = recs\<rparr>"
proof -
  have abs: "union_columns acc cs = acc" if "set cs \<subseteq> set acc" for acc cs :: "string list"
    using that by (induction cs arbitrary: acc) auto
  have f: "foldl union_columns acc (map (map fst) rs) = acc"
    if "\<forall>r \<in> set rs. map fst r = cols" "set cols \<subseteq> set acc" for rs and acc :: "string list"
    using that by (induction rs arbitrary: acc) (auto simp: abs)
  from assms(1) obtain r rs where recs: "recs = r # rs" by (cases recs) auto
  with u have r: "map fst r = cols" and rs: "\<forall>r \<in> set rs. map fst r = cols" by auto
  have "foldl union_columns [] (map (map fst) recs) = foldl union_columns cols (map (map fst) rs)"
    using recs r union_columns_distinct[of "[]" cols] d by simp
  also have "\<dots> = cols" using f[OF rs] by simp
  finally have c: "foldl union_columns [] (map (map fst) recs) = cols" .
  have "map (reindex cols) recs = recs"
  proof (rule map_idI)
    fix x assume "x \<in> set recs"
    with u d have "map fst x = cols" "distinct (map fst x)" by auto
    then show "reindex cols x = x" using reindex_id[of x] by simp
  qed
  with c show ?thesis by (simp add: frame_of_records_def Let_def)
qed

lemmas frame_simps = df_empty_def has_column_def pd_concat_def drop_duplicates_def
  subset_key_def cell_at_def reindex_def sortable_def insertion_sort_def sort_values_def
  sort_by_data_def sort_by_datetime_def datetime_temp_def date_time_def by_stamp_def by_data_def
  iso_to_datetime_def iso_to_datetime_coerce_def joins_def shape_def digit_def digits_value_def

section \<open>Properties: the table merger\<close>


text \<open>The keyed branches of the merger, as one equation; and the branch without a key.\<close>

lemma combine_sheet_keyed:
  assumes ex: "map_of existing_data sheet_name = Some existing_df"
    and ne: "\<not> df_empty existing_df"
    and nm: "sheet_name \<noteq> ''Resumo_Precipitacao''"
    and key: "dedup_subset existing_df new_df = Some ks"
  shows "combine_sheet to_dt srt existing_data sheet_name new_df =
     (if ''hora'' \<in> set ks
      then sort_by_datetime to_dt srt (drop_duplicates ks (pd_concat [existing_df, new_df]))
      else sort_by_data srt (drop_duplicates ks (pd_concat [existing_df, new_df])))"
proof (cases "has_column ''data'' new_df \<and> has_column ''hora'' new_df
         \<and> has_column ''data'' existing_df \<and> has_column ''hora'' existing_df")
  case True
  with key have "ks = [''data'', ''hora'']" by (simp add: dedup_subset_def)
  with True ex ne nm show ?thesis by (simp add: combine_sheet_def)
next
  case False
  with key have "ks = [''data'']" "has_column ''data'' new_df \<and> has_column ''data'' existing_df"
    by (auto simp: dedup_subset_def split: if_splits)
  with False ex ne nm show ?thesis by (auto simp: combine_sheet_def)
qed



















lemma combine_sheet_empty_new:
  assumes ex: "map_of existing_data sheet_name = Some existing_df"
    and ne: "\<not> df_empty existing_df"
    and nm: "sheet_name \<noteq> ''Resumo_Precipitacao''"
    and wf: "wf_frame existing_df"
  shows "combine_sheet to_dt srt existing_data sheet_name DataFrame_empty =
           (if has_column ''data'' existing_df \<and> has_column ''hora'' existing_df
            then sort_by_datetime to_dt srt existing_df
            else if has_column ''data'' existing_df then sort_by_data srt existing_df
            else Inr existing_df)"
proof -
  have h: "\<And>c. \<not> has_column c DataFrame_empty" by (simp add: has_column_def DataFrame_empty_def)
  show ?thesis
    using ex ne nm h by (simp add: combine_sheet_def Let_def pd_concat_empty_right[OF wf])
qed

lemma empty_new_table_merge:
  assumes srt: "is_sorter srt"
    and ex: "map_of existing_data sheet_name = Some existing_df"
    and ne: "\<not> df_empty existing_df"
    and nm: "sheet_name \<noteq> ''Resumo_Precipitacao''"
    and wf: "wf_frame existing_df"
    and res: "combine_sheet to_dt srt existing_data sheet_name DataFrame_empty = Inr merged"
  shows "columns merged = columns existing_df"
    and "mset (rows merged) = mset (rows existing_df)"
    and "strictly_chronological to_dt existing_df \<Longrightarrow> merged = existing_df"
proof -
  note eq = combine_sheet_empty_new[OF ex ne nm wf, of to_dt srt]
  have all: "columns merged = columns existing_df \<and> mset (rows merged) = mset (rows existing_df)
     \<and> (strictly_chronological to_dt existing_df \<longrightarrow> rows merged = rows existing_df)"
  proof (cases "has_column ''data'' existing_df \<and> has_column ''hora'' existing_df")
    case True
    with res eq have "sort_by_datetime to_dt srt existing_df = Inr merged" by simp
    from sort_by_datetime_mset[OF srt this] obtain stamp where
      st: "datetime_temp to_dt existing_df = Inr stamp"
      and c: "columns merged = columns existing_df" and m: "mset (rows merged) = mset (rows existing_df)"
      and s: "sorted_wrt (by_stamp stamp) (rows merged)" by blast
    have "rows merged = rows existing_df" if "strictly_chronological to_dt existing_df"
    proof -
      from that True st
      have "sorted_wrt (\<lambda>a b. stamp_le (stamp a) (stamp b) \<and> stamp a \<noteq> stamp b) (rows existing_df)"
        by (simp add: strictly_chronological_def by_stamp_def)
      moreover from s have "sorted_wrt (\<lambda>a b. stamp_le (stamp a) (stamp b)) (rows merged)"
        by (simp add: by_stamp_def[abs_def])
      ultimately show ?thesis
        using sorted_wrt_unique[of stamp_le stamp "rows existing_df" "rows merged"]
          stamp_le_antisym m by blast
    qed
    with c m show ?thesis by simp
  next
    case nb: False
    show ?thesis
    proof (cases "has_column ''data'' existing_df")
      case True
      with nb res eq have "sort_by_data srt existing_df = Inr merged" by simp
      from sort_by_data_mset[OF srt this]
      have c: "columns merged = columns existing_df" and m: "mset (rows merged) = mset (rows existing_df)"
        and s: "sorted_wrt by_data (rows merged)" by simp_all
      have "rows merged = rows existing_df" if "strictly_chronological to_dt existing_df"
      proof -
        from that True nb
        have "sorted_wrt (\<lambda>a b. cell_le (cell_at a ''data'') (cell_at b ''data'')
                  \<and> cell_at a ''data'' \<noteq> cell_at b ''data'') (rows existing_df)"
          by (simp add: strictly_chronological_def by_data_def)
        moreover from s have "sorted_wrt (\<lambda>a b. cell_le (cell_at a ''data'') (cell_at b ''data'')) (rows merged)"
          by (simp add: by_data_def[abs_def])
        ultimately show ?thesis
          using sorted_wrt_unique[of cell_le "\<lambda>r. cell_at r ''data''" "rows existing_df" "rows merged"]
            cell_le_antisym m by blast
      qed
      with c m show ?thesis by simp
    next
      case False
      with nb res eq show ?thesis by simp
    qed
  qed
  from all show "columns merged = columns existing_df" "mset (rows merged) = mset (rows existing_df)"
    by simp_all
  assume "strictly_chronological to_dt existing_df"
  with all have "rows merged = rows existing_df" "columns merged = columns existing_df" by simp_all
  then show "merged = existing_df" by simp
qed

text \<open>
  Table by table the merge is idempotent: merging a strictly chronological table with
  rows it already holds gives the table back, when the parser does not depend on the
  order of the column and the dates can be compared.
\<close>

lemma merge_idempotent_table:
  assumes srt: "is_sorter srt"
    and ex: "map_of existing_data sheet_name = Some existing_df"
    and ne: "\<not> df_empty existing_df"
    and nm: "sheet_name \<noteq> ''Resumo_Precipitacao''"
    and wf: "wf_frame existing_df"
    and c: "columns new_df = columns existing_df"
    and sub: "set (rows new_df) \<subseteq> set (rows existing_df)"
    and dt: "has_column ''data'' existing_df"
    and sc: "strictly_chronological to_dt existing_df"
    and blind: "order_blind to_dt"
    and ord: "has_column ''hora'' existing_df
            \<or> sortable (map (\<lambda>r. cell_at r ''data'') (rows existing_df))"
  shows "combine_sheet to_dt srt existing_data sheet_name new_df = Inr existing_df"
proof -
  let ?xs = "rows existing_df" and ?ys = "rows new_df"
  have pc: "pd_concat [existing_df, new_df] = \<lparr>columns = columns existing_df, rows = ?xs @ ?ys\<rparr>"
    by (rule pd_concat_same_columns[OF wf c sub])
  from c have hc: "\<And>n. has_column n new_df = has_column n existing_df" by (simp add: has_column_def)
  show ?thesis
  proof (cases "has_column ''hora'' existing_df")
    case True
    with dt hc have key: "dedup_subset existing_df new_df = Some [''data'', ''hora'']"
      by (simp add: dedup_subset_def)
    let ?k = "subset_key [''data'', ''hora'']"
    let ?d = "drop_duplicates [''data'', ''hora''] (pd_concat [existing_df, new_df])"
    from sc True dt obtain stamp where st: "datetime_temp to_dt existing_df = Inr stamp"
      and ss: "sorted_wrt (\<lambda>a b. stamp_le (stamp a) (stamp b) \<and> stamp a \<noteq> stamp b) ?xs"
      by (auto simp: strictly_chronological_def by_stamp_def split: sum.splits)
    from st obtain f where f: "to_dt (map date_time ?xs) = Inr f" and sf: "stamp = (\<lambda>r. f (date_time r))"
      by (auto simp: datetime_temp_def split: sum.splits)
    from ss have "distinct (map stamp ?xs)" by (rule strict_sorted_distinct_keys)
    then have dk: "distinct (map ?k ?xs)"
      by (rule distinct_finer_key) (simp add: subset_key_def sf date_time_def)
    have ms: "mset (keep_last ?k (?xs @ ?ys)) = mset ?xs"
      by (rule keep_last_append_subset[OF dk sub])
    have rd: "rows ?d = keep_last ?k (?xs @ ?ys)" by (simp add: drop_duplicates_def pc)
    have "mset (map date_time (rows ?d)) = mset (map date_time ?xs)"
      by (simp only: rd mset_map ms)
    with blind have "to_dt (map date_time (rows ?d)) = to_dt (map date_time ?xs)"
      unfolding order_blind_def by (elim allE impE) assumption
    with f sf have std: "datetime_temp to_dt ?d = Inr stamp" by (simp add: datetime_temp_def)
    then obtain out where out: "sort_by_datetime to_dt srt ?d = Inr out"
      by (simp add: sort_by_datetime_def)
    from sort_by_datetime_mset[OF srt out] std
    have oc: "columns out = columns existing_df" and om: "mset (rows out) = mset ?xs"
      and os: "sorted_wrt (\<lambda>a b. stamp_le (stamp a) (stamp b)) (rows out)"
      by (auto simp: drop_duplicates_def pc ms by_stamp_def[abs_def])
    from sorted_wrt_unique[of stamp_le stamp ?xs "rows out", OF stamp_le_antisym ss os om]
    have "rows out = ?xs" .
    with oc have "out = existing_df" by simp
    with out combine_sheet_keyed[OF ex ne nm key, of to_dt srt] show ?thesis by simp
  next
    case False
    with dt hc have key: "dedup_subset existing_df new_df = Some [''data'']"
      by (simp add: dedup_subset_def)
    let ?k = "subset_key [''data'']"
    from sc False dt have st: "sorted_wrt (\<lambda>a b. cell_le (cell_at a ''data'') (cell_at b ''data'')
                \<and> cell_at a ''data'' \<noteq> cell_at b ''data'') ?xs"
      by (simp add: strictly_chronological_def by_data_def)
    then have "distinct (map (\<lambda>r. cell_at r ''data'') ?xs)" by (rule strict_sorted_distinct_keys)
    then have dk: "distinct (map ?k ?xs)"
      by (rule distinct_finer_key) (simp add: subset_key_def)
    have ms: "mset (keep_last ?k (?xs @ ?ys)) = mset ?xs"
      by (rule keep_last_append_subset[OF dk sub])
    from False ord have p: "sortable (map (\<lambda>r. cell_at r ''data'') ?xs)" by simp
    have "set (keep_last ?k (?xs @ ?ys)) = set ?xs" using ms by (rule mset_eq_setD)
    with p obtain out where out:
      "sort_by_data srt (drop_duplicates [''data''] (pd_concat [existing_df, new_df])) = Inr out"
      by (simp add: sort_by_data_def drop_duplicates_def pc sortable_def)
    from sort_by_data_mset[OF srt out]
    have oc: "columns out = columns existing_df" and om: "mset (rows out) = mset ?xs"
      and os: "sorted_wrt (\<lambda>a b. cell_le (cell_at a ''data'') (cell_at b ''data'')) (rows out)"
      by (simp_all add: drop_duplicates_def pc ms by_data_def[abs_def])
    from sorted_wrt_unique[of cell_le "\<lambda>r. cell_at r ''data''" ?xs "rows out", OF cell_le_antisym st os om]
    have "rows out = ?xs" .
    with oc have "out = existing_df" by simp
    with out combine_sheet_keyed[OF ex ne nm key, of to_dt srt] show ?thesis by simp
  qed
qed

section \<open>Properties: the merge-and-store cycle\<close>

lemma combine_all_lookup:
  "combine_all to_dt srt E dict = Inr d \<Longrightarrow> map_of dict n = Some new \<Longrightarrow>
   \<exists>m. combine_sheet to_dt srt E n new = Inr m \<and> map_of d n = Some m"
proof (induction dict arbitrary: d)
  case Nil
  then show ?case by simp
next
  case (Cons p dict)
  obtain n0 df0 where p: "p = (n0, df0)" by (cases p)
  from Cons.prems(1) p obtain c cs where
    c: "combine_sheet to_dt srt E n0 df0 = Inr c"
    and cs: "combine_all to_dt srt E dict = Inr cs"
    and d: "d = (n0, c) # cs"
    by (auto split: sum.splits)
  show ?case
  proof (cases "n = n0")
    case True
    with Cons.prems(2) p have "new = df0" by simp
    with True c d show ?thesis by simp
  next
    case False
    with Cons.prems(2) p have "map_of dict n = Some new" by simp
    from Cons.IH[OF cs this] False d show ?thesis by simp
  qed
qed


lemma combine_all_no_existing: "combine_all to_dt srt [] dict = Inr dict"
  by (induction dict) (auto simp: combine_sheet_def)

lemma read_sheets_lookup:
  "read_sheets sheets = Some E \<Longrightarrow> map_of sheets n = map_option Readable (map_of E n)"
proof (induction sheets arbitrary: E rule: read_sheets.induct)
  case 1
  then show ?case by simp
next
  case (2 sheet_name rest)
  then show ?case by simp
next
  case (3 sheet_name df rest)
  from "3.prems" obtain d where d: "read_sheets rest = Some d" and E: "E = (sheet_name, df) # d"
    by (auto split: option.splits)
  from "3.IH"[OF d] E show ?case by simp
qed

lemma map_of_nonempty_sheets:
  "map_of d n = Some m \<Longrightarrow> \<not> df_empty m \<Longrightarrow> map_of (nonempty_sheets d) n = Some m"
  by (induction d) (auto simp: nonempty_sheets_def split: if_splits)


lemma stored_as_workbook: "stored (as_workbook d) n = map_option Readable (map_of d n)"
  by (simp add: stored_def as_workbook_def map_of_map[symmetric] case_prod_unfold del: map_of_map)
     (induction d, auto)

lemma main_file_write_backup: "main_file (write_backup d s) = main_file s"
  by (simp add: write_backup_def)

lemma written_sheets_nonempty:
  "(sheet_name, df) \<in> set (nonempty_sheets d) \<Longrightarrow> \<not> df_empty df"
  by (auto simp: nonempty_sheets_def)

text \<open>
  Claim C3 (as amended). A non-empty persisted table that is not the summary, for which
  the cycle brings the empty table \<open>pd.DataFrame()\<close>, without a column, under the same
  name, is still stored after \<open>save_precipitation_data\<close> when the load of the workbook
  succeeds, whatever path the function then takes: with the same columns and exactly the
  prior rows, none erased and none duplicated, and as the very same table when the prior
  rows were in strict chronological order. The stored table is therefore never a
  zero-row section.
\<close>

theorem empty_new_table_is_noop:
  assumes srt: "is_sorter srt"
    and wb: "main_file s = Workbook sheets"
    and rd: "read_sheets sheets = Some existing_data"
    and ex: "map_of existing_data sheet_name = Some existing_df"
    and ne: "\<not> df_empty existing_df"
    and wf: "wf_frame existing_df"
    and nm: "sheet_name \<noteq> ''Resumo_Precipitacao''"
    and new: "map_of dataframes_dict sheet_name = Some DataFrame_empty"
  shows "\<exists>merged.
       stored (main_file (save_precipitation_data to_dt srt makedirs_ok dataframes_dict s)) sheet_name
         = Some (Readable merged)
     \<and> columns merged = columns existing_df
     \<and> mset (rows merged) = mset (rows existing_df)
     \<and> (strictly_chronological to_dt existing_df \<longrightarrow> merged = existing_df)"
proof -
  let ?s' = "save_precipitation_data to_dt srt makedirs_ok dataframes_dict s"
  have before: "stored (main_file s) sheet_name = Some (Readable existing_df)"
    using read_sheets_lookup[OF rd, of sheet_name] ex wb by (simp add: stored_def)
  have untouched: ?thesis if "main_file ?s' = main_file s"
    using that before by auto
  show ?thesis
  proof (cases "makedirs_ok")
    case False
    then have "main_file ?s' = main_file s"
      by (simp add: save_precipitation_data_def main_file_write_backup)
    then show ?thesis by (rule untouched)
  next
    case True
    show ?thesis
    proof (cases "merged_dict to_dt srt dataframes_dict (main_file s)")
      case (Inl e)
      with True have "main_file ?s' = main_file s"
        by (simp add: save_precipitation_data_def main_file_write_backup)
      then show ?thesis by (rule untouched)
    next
      case (Inr d)
      with wb rd have ca: "combine_all to_dt srt existing_data dataframes_dict = Inr d"
        by (simp add: merged_dict_def load_existing_def)
      from combine_all_lookup[OF ca new] obtain m where
        m: "combine_sheet to_dt srt existing_data sheet_name DataFrame_empty = Inr m"
        and dm: "map_of d sheet_name = Some m" by blast
      note props = empty_new_table_merge[OF srt ex ne nm wf m]
      from props(2) have "set (rows m) = set (rows existing_df)" by (rule mset_eq_setD)
      with props(1) ne have nem: "\<not> df_empty m" by (auto simp: df_empty_def)
      from map_of_nonempty_sheets[OF dm nem]
      have look: "map_of (nonempty_sheets d) sheet_name = Some m" .
      then have "nonempty_sheets d \<noteq> []" by auto
      with True Inr have "main_file ?s' = as_workbook (nonempty_sheets d)"
        by (simp add: save_precipitation_data_def)
      with look have "stored (main_file ?s') sheet_name = Some (Readable m)"
        by (simp add: stored_as_workbook)
      with props show ?thesis by blast
    qed
  qed
qed

theorem empty_new_table_is_noop_witness:
  "stored (main_file (save_precipitation_data iso_to_datetime insertion_sort True
       [(''Dados_Horarios'', DataFrame_empty)]
       \<lparr>main_file = Workbook [(''Dados_Horarios'', Readable hourly_existing)], backups = []\<rparr>))
     ''Dados_Horarios'' = Some (Readable hourly_existing)"
proof -
  have sc: "strictly_chronological iso_to_datetime hourly_existing"
    by (simp add: strictly_chronological_def hourly_existing_def frame_simps)
  have wf: "wf_frame hourly_existing" by (simp add: wf_frame_def hourly_existing_def)
  have ne: "\<not> df_empty hourly_existing" by (simp add: df_empty_def hourly_existing_def)
  from empty_new_table_is_noop[OF is_sorter_insertion_sort, of
      "\<lparr>main_file = Workbook [(''Dados_Horarios'', Readable hourly_existing)], backups = []\<rparr>"
      "[(''Dados_Horarios'', Readable hourly_existing)]" "[(''Dados_Horarios'', hourly_existing)]"
      "''Dados_Horarios''" hourly_existing "[(''Dados_Horarios'', DataFrame_empty)]"
      iso_to_datetime True] ne wf sc
  show ?thesis by auto
qed

lemma zero_rows_example:
  "save_precipitation_data iso_to_datetime insertion_sort True
       [(''Dados_Horarios'', dated_no_rows)]
       \<lparr>main_file = Workbook [(''Dados_Horarios'', Readable hourly_same_day)], backups = []\<rparr>
   = \<lparr>main_file = Workbook [(''Dados_Horarios'', Readable hourly_last_hour)], backups = []\<rparr>"
  by (simp add: save_precipitation_data_def merged_dict_def load_existing_def combine_sheet_def
      nonempty_sheets_def as_workbook_def hourly_same_day_def dated_no_rows_def
      hourly_last_hour_def frame_simps)

lemma discarded_load_example:
  "save_precipitation_data iso_to_datetime insertion_sort True
       [(''Dados_Horarios'', DataFrame_empty), (''Dados_Diarios'', daily_new)]
       \<lparr>main_file = Workbook [(''Dados_Horarios'', Readable hourly_existing),
                              (''Dados_Diarios'', Unparseable)], backups = []\<rparr>
   = \<lparr>main_file = Workbook [(''Dados_Diarios'', Readable daily_new)], backups = []\<rparr>"
  by (simp add: save_precipitation_data_def merged_dict_def load_existing_def combine_sheet_def
      nonempty_sheets_def as_workbook_def daily_new_def DataFrame_empty_def df_empty_def)

text \<open>
  Claim C3 as stated fails on an empty table that carries columns: a table with the date
  column and no row is empty (\<open>df.empty\<close>), the merger takes the branch keyed on the
  date, and the deduplication leaves one row for each date of the persisted hourly
  table. It also fails when another sheet of the workbook does not parse: the load is
  discarded, the empty table is kept as the new value and is not written, so the
  persisted table is gone.
\<close>

theorem empty_new_table_counterexample:
  "df_empty dated_no_rows
   \<and> stored (main_file (save_precipitation_data iso_to_datetime insertion_sort True
        [(''Dados_Horarios'', dated_no_rows)]
        \<lparr>main_file = Workbook [(''Dados_Horarios'', Readable hourly_same_day)], backups = []\<rparr>))
       ''Dados_Horarios'' = Some (Readable hourly_last_hour)
   \<and> rows hourly_last_hour \<noteq> rows hourly_same_day
   \<and> df_empty DataFrame_empty
   \<and> stored (main_file (save_precipitation_data iso_to_datetime insertion_sort True
        [(''Dados_Horarios'', DataFrame_empty), (''Dados_Diarios'', daily_new)]
        \<lparr>main_file = Workbook [(''Dados_Horarios'', Readable hourly_existing),
                               (''Dados_Diarios'', Unparseable)], backups = []\<rparr>))
       ''Dados_Horarios'' = None"
proof -
  have 1: "df_empty dated_no_rows" by (simp add: dated_no_rows_def df_empty_def)
  have 2: "rows hourly_last_hour \<noteq> rows hourly_same_day"
    by (simp add: hourly_last_hour_def hourly_same_day_def)
  have 3: "df_empty DataFrame_empty" by (simp add: DataFrame_empty_def df_empty_def)
  from 1 2 3 show ?thesis
    unfolding zero_rows_example discarded_load_example by (simp add: stored_def)
qed

lemma cycle_example:
  "extract_precipitation_data iso_to_datetime insertion_sort no_rounding True
      historical_fetched DataFrame_empty DataFrame_empty DataFrame_empty disk_before
   = Inr disk_after"
  by (simp add: extract_precipitation_data_def build_dataframes_def sort_if_dated_def
      create_precipitation_summary_def save_precipitation_data_def merged_dict_def
      load_existing_def combine_sheet_def nonempty_sheets_def as_workbook_def
      historical_fetched_def historical_merged_def forecast_existing_def daily_existing_def
      hourly_existing_def disk_before_def disk_after_def DataFrame_empty_def frame_simps
      summary_frame_def metrica_def no_rounding_def)

text \<open>
  Claim C2. A table of the persisted workbook that the cycle does not bring again should
  pass through the merge-and-store cycle unchanged. The code does not do that: the
  merged dictionary is built from the names of the new tables only and the workbook is
  rewritten from it. Here the hourly query brings nothing, so \<open>Dados_Horarios\<close> is not
  among the new tables, and the stored hourly table is gone after the cycle. The second
  half of the claim does hold in the same run: the forecast query failed, the forecast
  table is unchanged, and the historical table keeps its row and gains the new one.
\<close>

theorem unfetched_table_dropped:
  "extract_precipitation_data iso_to_datetime insertion_sort no_rounding True
      historical_fetched DataFrame_empty DataFrame_empty DataFrame_empty disk_before
   = Inr disk_after
   \<and> stored (main_file disk_before) ''Dados_Horarios'' = Some (Readable hourly_existing)
   \<and> stored (main_file disk_after) ''Dados_Horarios'' = None
   \<and> stored (main_file disk_after) ''Previsao_Precipitacao'' = Some (Readable forecast_existing)
   \<and> stored (main_file disk_after) ''Dados_Historicos'' = Some (Readable historical_merged)"
  using cycle_example by (simp add: disk_before_def disk_after_def stored_def)

text \<open>
  Claim C5. Merging a dataset with a table it already holds should give the dataset
  back. Table by table it does (\<open>merge_idempotent_table\<close>), but the tables that the
  new set does not name are dropped, so the dataset is not the one before.
\<close>

theorem remerge_not_identity:
  "main_file (save_precipitation_data iso_to_datetime insertion_sort True
       [(''Dados_Historicos'', daily_existing)] disk_before)
     = Workbook [(''Dados_Historicos'', Readable daily_existing)]
   \<and> main_file (save_precipitation_data iso_to_datetime insertion_sort True
       [(''Dados_Historicos'', daily_existing)] disk_before) \<noteq> main_file disk_before"
  by (simp add: save_precipitation_data_def merged_dict_def
      load_existing_def combine_sheet_def nonempty_sheets_def as_workbook_def
      daily_existing_def disk_before_def frame_simps)







section \<open>Properties: the load of the workbook\<close>

text \<open>The load, as one equation: every sheet when all parse, nothing otherwise.\<close>

lemma read_sheets_eq:
  "read_sheets sheets =
     (if Unparseable \<in> snd ` set sheets then None
      else Some (concat (map (\<lambda>(sheet_name, sh).
             case sh of Readable df \<Rightarrow> [(sheet_name, df)] | Unparseable \<Rightarrow> []) sheets)))"
  by (induction sheets rule: read_sheets.induct) (auto split: option.splits)

text \<open>
  Claim C9 (as amended). The load never fails the cycle: a file that does not exist or
  cannot be opened gives no prior data, and the merge then returns the new tables as they
  are. When one sheet fails to parse, the whole load is discarded, not that sheet alone:
  the merge sees no prior table at all. Only when every sheet parses are the prior tables
  available.
\<close>

theorem load_all_or_nothing:
  "load_existing Missing = [] \<and> load_existing Corrupt = []
   \<and> load_existing (Workbook sheets) =
       (if Unparseable \<in> snd ` set sheets then []
        else concat (map (\<lambda>(sheet_name, sh).
               case sh of Readable df \<Rightarrow> [(sheet_name, df)] | Unparseable \<Rightarrow> []) sheets))
   \<and> merged_dict to_dt srt dataframes_dict Missing = Inr dataframes_dict
   \<and> merged_dict to_dt srt dataframes_dict Corrupt = Inr dataframes_dict
   \<and> merged_dict to_dt srt dataframes_dict (Workbook sheets) =
       (if Unparseable \<in> snd ` set sheets then Inr dataframes_dict
        else combine_all to_dt srt (load_existing (Workbook sheets)) dataframes_dict)"
  by (simp add: load_existing_def merged_dict_def read_sheets_eq combine_all_no_existing)

theorem load_all_or_nothing_witness:
  "load_existing (Workbook [(''Dados_Diarios'', Readable daily_existing),
                            (''Dados_Horarios'', Readable hourly_existing)])
   = [(''Dados_Diarios'', daily_existing), (''Dados_Horarios'', hourly_existing)]"
  using load_all_or_nothing[of "[(''Dados_Diarios'', Readable daily_existing),
                            (''Dados_Horarios'', Readable hourly_existing)]"
      iso_to_datetime insertion_sort "[]"]
  by simp

text \<open>
  Claim C9 as stated fails: with one unparseable sheet beside a readable one, the
  readable sheet's rows are not available to the merge, and the merged daily table is
  the new one alone.
\<close>

theorem load_one_bad_sheet_counterexample:
  "map_of (load_existing (Workbook [(''Dados_Diarios'', Readable daily_existing),
                                    (''Dados_Horarios'', Unparseable)])) ''Dados_Diarios'' = None
   \<and> merged_dict iso_to_datetime insertion_sort [(''Dados_Diarios'', historical_fetched)]
        (Workbook [(''Dados_Diarios'', Readable daily_existing), (''Dados_Horarios'', Unparseable)])
      = Inr [(''Dados_Diarios'', historical_fetched)]"
  by (simp add: load_existing_def merged_dict_def combine_sheet_def)

section \<open>Properties: the AccuWeather path\<close>

lemma set_foldl_union_columns:
  "set (foldl union_columns acc ls) = set acc \<union> \<Union> (set ` set ls)"
  by (induction ls arbitrary: acc) (auto simp: set_union_columns)

lemma columns_frame_of_records:
  "set (columns (frame_of_records recs)) = (\<Union>r \<in> set recs. fst ` set r)"
  by (simp add: frame_of_records_def Let_def set_foldl_union_columns)

lemma rows_frame_of_records:
  "rows (frame_of_records recs) = map (reindex (columns (frame_of_records recs))) recs"
  by (simp add: frame_of_records_def Let_def)

lemma reindex_reindex:
  "set cols \<subseteq> set cols' \<Longrightarrow> reindex cols (reindex cols' r) = reindex cols r"
  by (auto simp: reindex_def cell_at_reindex[unfolded reindex_def])

text \<open>
  What \<open>save_to_excel\<close> hands to the writer when the stored sheet is read and some new
  record has a timestamp that is not stored: every stored row, and the new records
  whose timestamp is not stored. A record whose timestamp is stored is left out; the
  stored row stays as it is.
\<close>

lemma accu_merge_keeps_stored:
  assumes srt: "is_sorter srt"
    and wb: "f = Workbook sheets"
    and sh: "map_of sheets ''Dados_Completos'' = Some (Readable df_existing)"
    and cols: "has_column ''data'' df_existing" "has_column ''hora'' df_existing"
    and recs: "\<forall>r \<in> set new_data. map fst r = column_order"
    and new: "to_dt (map date_time new_data) = Inr stamp_new"
    and old: "to_dt_coerce (map date_time (rows df_existing)) = Inr stamp_existing"
    and fresh: "filter (\<lambda>r. stamp_new (date_time r)
                  \<notin> set (map (\<lambda>x. stamp_existing (date_time x)) (rows df_existing))) new_data \<noteq> []"
  shows "\<exists>w. save_to_excel to_dt to_dt_coerce srt new_data f = Inr (Written w)
     \<and> columns w = column_order
     \<and> mset (rows w) =
         mset (map (reindex column_order)
                (rows df_existing
                 @ filter (\<lambda>r. stamp_new (date_time r)
                     \<notin> set (map (\<lambda>x. stamp_existing (date_time x)) (rows df_existing))) new_data))"
proof -
  let ?sn = "\<lambda>r. stamp_new (date_time r)" and ?so = "\<lambda>r. stamp_existing (date_time r)"
  let ?keep = "filter (\<lambda>r. ?sn r \<notin> set (map ?so (rows df_existing))) new_data"
  from fresh have ne: "new_data \<noteq> []" by auto
  have dc: "distinct column_order" by (simp add: column_order_def)
  have fr: "frame_of_records new_data = \<lparr>columns = column_order, rows = new_data\<rparr>"
    by (rule frame_of_uniform_records[OF ne recs dc])
  have hc: "has_column ''data'' (frame_of_records new_data)"
           "has_column ''hora'' (frame_of_records new_data)"
    by (simp_all add: fr has_column_def column_order_def)
  from new have sn: "datetime_temp to_dt (frame_of_records new_data) = Inr ?sn"
    by (simp add: datetime_temp_def fr)
  from old have so: "datetime_temp to_dt_coerce df_existing = Inr ?so"
    by (simp add: datetime_temp_def)
  let ?flt = "\<lparr>columns = column_order, rows = ?keep\<rparr>"
  let ?c = "pd_concat [df_existing, ?flt]"
  let ?sorted = "sort_values srt stamp_le (map ?so (rows df_existing) @ map ?sn ?keep) (rows ?c)"
  have rc: "read_and_combine to_dt_coerce srt (frame_of_records new_data) ?sn f
            = Inr (Some (?c\<lparr>rows := ?sorted\<rparr>))"
    using wb sh cols so fresh by (simp add: read_and_combine_def fr df_empty_def Let_def column_order_def)
  have sub: "set column_order \<subseteq> set (columns ?c)" by (simp add: columns_pd_concat2)
  from ne hc sn wb rc sub
  have w: "save_to_excel to_dt to_dt_coerce srt new_data f
           = Inr (Written (select_columns column_order (?c\<lparr>rows := ?sorted\<rparr>)))"
    by (simp add: save_to_excel_def Let_def)
  have m: "mset ?sorted = mset (rows ?c)"
    by (rule sort_values_mset[OF srt]) (use stamp_le_total stamp_le_trans in blast)+
  have "mset (map (reindex column_order) ?sorted) = mset (map (reindex column_order) (rows ?c))"
    using m by (simp only: mset_map)
  also have "map (reindex column_order) (rows ?c)
             = map (reindex column_order) (rows df_existing @ ?keep)"
    using sub by (simp add: rows_pd_concat2 reindex_reindex comp_def)
  finally have "mset (rows (select_columns column_order (?c\<lparr>rows := ?sorted\<rparr>)))
                = mset (map (reindex column_order) (rows df_existing @ ?keep))"
    by (simp add: select_columns_def)
  with w show ?thesis by (simp add: select_columns_def)
qed

text \<open>
  Claim C10 (as amended). In the AccuWeather path, when the stored workbook has a
  readable \<open>Dados_Completos\<close> sheet with date and time-of-day columns, the timestamps of
  the new records and of the stored rows can be computed (\<open>pd.to_datetime\<close> returns on
  both columns), and the timestamp of every new record occurs among those of the stored
  rows, \<open>save_to_excel\<close> returns False before the writer is opened; and it does the same
  on an empty list of records.
\<close>

theorem no_new_data_no_write:
  assumes wb: "f = Workbook sheets"
    and sh: "map_of sheets ''Dados_Completos'' = Some (Readable df_existing)"
    and cols: "has_column ''data'' df_existing" "has_column ''hora'' df_existing"
    and keys: "\<forall>r \<in> set new_data. ''data'' \<in> fst ` set r \<and> ''hora'' \<in> fst ` set r"
    and new: "to_dt (map date_time new_data) = Inr stamp_new"
    and old: "to_dt_coerce (map date_time (rows df_existing)) = Inr stamp_existing"
    and known: "\<forall>r \<in> set new_data. stamp_new (date_time r)
                  \<in> set (map (\<lambda>x. stamp_existing (date_time x)) (rows df_existing))"
  shows "save_to_excel to_dt to_dt_coerce srt new_data f = Inr Unwritten
       \<and> save_to_excel to_dt to_dt_coerce srt [] f = Inr Unwritten"
proof -
  have e: "save_to_excel to_dt to_dt_coerce srt [] f = Inr Unwritten"
    by (simp add: save_to_excel_def)
  show ?thesis
  proof (cases "new_data = []")
    case True
    with e show ?thesis by simp
  next
    case False
    let ?df = "frame_of_records new_data"
    from False obtain r0 where r0: "r0 \<in> set new_data" by (cases new_data) auto
    with keys have "''data'' \<in> fst ` set r0" "''hora'' \<in> fst ` set r0" by auto
    with r0 have dc: "''data'' \<in> set (columns ?df)" "''hora'' \<in> set (columns ?df)"
      unfolding columns_frame_of_records by blast+
    then have hc: "has_column ''data'' ?df" "has_column ''hora'' ?df"
      by (simp_all add: has_column_def)
    have dt: "map date_time (rows ?df) = map date_time new_data"
      by (simp add: rows_frame_of_records date_time_reindex[OF dc] comp_def)
    from new dt have sn: "datetime_temp to_dt ?df = Inr (\<lambda>r. stamp_new (date_time r))"
      by (simp add: datetime_temp_def)
    from old have so: "datetime_temp to_dt_coerce df_existing = Inr (\<lambda>r. stamp_existing (date_time r))"
      by (simp add: datetime_temp_def)
    have "\<forall>r \<in> set (rows ?df). stamp_new (date_time r)
             \<in> set (map (\<lambda>x. stamp_existing (date_time x)) (rows df_existing))"
    proof
      fix r assume "r \<in> set (rows ?df)"
      then obtain r' where r': "r' \<in> set new_data" "r = reindex (columns ?df) r'"
        unfolding rows_frame_of_records by auto
      with dc have "date_time r = date_time r'" by (simp add: date_time_reindex)
      with known r'(1) show "stamp_new (date_time r)
             \<in> set (map (\<lambda>x. stamp_existing (date_time x)) (rows df_existing))" by simp
    qed
    then have "filter (\<lambda>r. stamp_new (date_time r)
          \<notin> set (map (\<lambda>x. stamp_existing (date_time x)) (rows df_existing))) (rows ?df) = []"
      by (simp add: filter_empty_conv)
    then have "read_and_combine to_dt_coerce srt ?df (\<lambda>r. stamp_new (date_time r)) f = Inr None"
      using wb sh cols so by (simp add: read_and_combine_def df_empty_def)
    with False hc sn wb have "save_to_excel to_dt to_dt_coerce srt new_data f = Inr Unwritten"
      by (simp add: save_to_excel_def Let_def)
    with e show ?thesis by simp
  qed
qed

theorem no_new_data_no_write_witness:
  "save_to_excel iso_to_datetime iso_to_datetime_coerce insertion_sort
      [accu_record ''2024-01-01'' ''11:00:00'' 3] accu_stored = Inr Unwritten"
proof -
  let ?g = "\<lambda>e. if joined_shape e = [''9999-99-99 99:99:99''] then iso_stamp e else NaT"
  have new: "iso_to_datetime (map date_time [accu_record ''2024-01-01'' ''11:00:00'' 3]) = Inr iso_stamp"
    by (simp add: accu_record_def accu_row_def frame_simps)
  have old: "iso_to_datetime_coerce (map date_time (rows accu_table)) = Inr ?g"
    by (simp add: accu_table_def accu_record_def accu_row_def frame_simps fun_eq_iff)
  have known: "\<forall>r \<in> set [accu_record ''2024-01-01'' ''11:00:00'' 3]. iso_stamp (date_time r)
                  \<in> set (map (\<lambda>x. ?g (date_time x)) (rows accu_table))"
    by (simp add: accu_table_def accu_record_def accu_row_def frame_simps)
  have keys: "\<forall>r \<in> set [accu_record ''2024-01-01'' ''11:00:00'' 3].
                ''data'' \<in> fst ` set r \<and> ''hora'' \<in> fst ` set r"
    by (simp add: accu_record_def accu_row_def)
  have sh: "map_of [(''Dados_Completos'', Readable accu_table)] ''Dados_Completos''
              = Some (Readable accu_table)" by simp
  have cols: "has_column ''data'' accu_table" "has_column ''hora'' accu_table"
    by (simp_all add: accu_table_def has_column_def column_order_def)
  from no_new_data_no_write[where f = accu_stored
      and sheets = "[(''Dados_Completos'', Readable accu_table)]" and df_existing = accu_table
      and new_data = "[accu_record ''2024-01-01'' ''11:00:00'' 3]"
      and to_dt = iso_to_datetime and to_dt_coerce = iso_to_datetime_coerce
      and stamp_new = iso_stamp and stamp_existing = ?g and srt = insertion_sort,
      OF accu_stored_def sh cols keys new old known]
  show ?thesis by simp
qed

lemma stored_number_example:
  "save_to_excel iso_to_datetime iso_to_datetime_coerce insertion_sort
      [accu_record ''2024-01-01'' ''11:00:00'' 3] accu_stored_number
   = Inr (Written \<lparr>columns = column_order, rows = [accu_record ''2024-01-01'' ''11:00:00'' 3]\<rparr>)"
  by (simp add: save_to_excel_def read_and_combine_def frame_of_records_def select_columns_def
      accu_stored_number_def accu_table_number_def accu_record_def
      accu_row_def column_order_def frame_simps Let_def)

text \<open>
  Claim C10 as stated fails when the timestamps of the stored rows cannot be computed.
  Here the stored table has the hour 11:00 and, in another row, a date cell that holds a
  number: joining the date and time columns raises TypeError inside the \<open>try\<close> block,
  the handler takes the new records alone, and the file is written again with the one
  new record, although its hour is in the stored table.
\<close>

theorem no_new_data_no_write_counterexample:
  "stored accu_stored_number ''Dados_Completos'' = Some (Readable accu_table_number)
   \<and> date_time (accu_record ''2024-01-01'' ''11:00:00'' 3)
       \<in> set (map date_time (rows accu_table_number))
   \<and> save_to_excel iso_to_datetime iso_to_datetime_coerce insertion_sort
       [accu_record ''2024-01-01'' ''11:00:00'' 3] accu_stored_number
     = Inr (Written \<lparr>columns = column_order, rows = [accu_record ''2024-01-01'' ''11:00:00'' 3]\<rparr>)"
proof -
  have 1: "stored accu_stored_number ''Dados_Completos'' = Some (Readable accu_table_number)"
    by (simp add: accu_stored_number_def stored_def)
  have 2: "date_time (accu_record ''2024-01-01'' ''11:00:00'' 3)
       \<in> set (map date_time (rows accu_table_number))"
    by (simp add: accu_table_number_def accu_record_def accu_row_def date_time_def cell_at_def)
  from 1 2 stored_number_example show ?thesis by simp
qed

section \<open>Properties: the normalizers\<close>








end
